theory Spec2Isabelle
  imports Complex_Main
begin

section \<open>The online store of sistemaLoja.cpp\<close>

text \<open>
  A shallow embedding of the domain classes of \<^verbatim>\<open>src/sistemaLoja.cpp\<close>:
  \<^verbatim>\<open>Product\<close>, \<^verbatim>\<open>CartItem\<close>, \<^verbatim>\<open>Order\<close>, \<^verbatim>\<open>Store\<close>, \<^verbatim>\<open>SessionManager\<close>, and of
  the two handlers of \<^verbatim>\<open>main\<close> that change state, \<^verbatim>\<open>POST /cart/add\<close> and
  \<^verbatim>\<open>POST /checkout\<close>.

  Each member function takes the object it is called on as its first argument and returns
  the updated object next to its return value. Every member function of \<^verbatim>\<open>Store\<close> and
  \<^verbatim>\<open>SessionManager\<close> holds the object's mutex from its first to its last statement, so
  each call is one atomic step on the object and the model is the sequential one.
\<close>

subsection \<open>The type int\<close>

text \<open>
  \<^verbatim>\<open>int\<close> is a 32-bit signed integer in two's complement. A value of type \<^verbatim>\<open>int\<close>
  is an \<^typ>\<open>int\<close> between \<open>INT_MIN\<close> and \<open>INT_MAX\<close>. The three additions of the
  program that can leave this range (\<^verbatim>\<open>stock += qty\<close>, \<^verbatim>\<open>ci.qty += item.qty\<close>,
  \<^verbatim>\<open>nextOrderId++\<close>) wrap around, as the compiled code does: the sum is taken modulo
  \<open>2 ^ 32\<close> into the range. The subtraction \<^verbatim>\<open>stock -= qty\<close> runs only when
  \<open>0 < qty \<le> stock\<close> and cannot leave the range.
\<close>

definition INT_MAX :: int where
  "INT_MAX = 2147483647"

definition INT_MIN :: int where
  "INT_MIN = - 2147483648"

definition int_wrap :: "int \<Rightarrow> int" where
  "int_wrap n = (n + 2147483648) mod 4294967296 - 2147483648"

definition int_add :: "int \<Rightarrow> int \<Rightarrow> int" where
  "int_add a b = int_wrap (a + b)"

subsection \<open>Product\<close>

text \<open>
  The field \<^verbatim>\<open>id\<close> is \<open>product_id\<close> here. A price is a \<^verbatim>\<open>double\<close>; the functions
  below only store and copy it, so its type is a parameter \<open>'p\<close>.
\<close>

record 'p Product =
  product_id :: int
  name :: string
  description :: string
  price :: 'p
  stock :: int

text \<open>
  \<^verbatim>\<open>bool decreaseStock(int qty) { if (qty <= 0) return false;
      if (qty > stock) return false; stock -= qty; return true; }\<close>
\<close>

definition decreaseStock :: "'p Product \<Rightarrow> int \<Rightarrow> bool \<times> 'p Product" where
  "decreaseStock p q =
     (if q \<le> 0 then (False, p)
      else if q > stock p then (False, p)
      else (True, p\<lparr>stock := stock p - q\<rparr>))"

text \<open>\<^verbatim>\<open>void increaseStock(int qty) { if (qty>0) stock += qty; }\<close>\<close>

definition increaseStock :: "'p Product \<Rightarrow> int \<Rightarrow> 'p Product" where
  "increaseStock p q = (if q > 0 then p\<lparr>stock := int_add (stock p) q\<rparr> else p)"

subsection \<open>CartItem and Order\<close>

record 'p CartItem =
  productId :: int
  productName :: string
  unitPrice :: 'p
  qty :: int

text \<open>
  An order is its id and its items. The field \<^verbatim>\<open>total\<close>, a floating-point sum that no
  function of \<^verbatim>\<open>Store\<close> reads, is left out.
\<close>

record 'p Order =
  order_id :: int
  items :: "'p CartItem list"

subsection \<open>Store\<close>

record 'p Store =
  products :: "'p Product list"
  nextOrderId :: int

text \<open>A default-constructed store: no product, \<^verbatim>\<open>nextOrderId = 1\<close>.\<close>

definition Store_init :: "'p Store" where
  "Store_init = \<lparr>products = [], nextOrderId = 1\<rparr>"

text \<open>\<^verbatim>\<open>void addProduct(const Product &p) { products.push_back(p); }\<close>\<close>

definition addProduct :: "'p Store \<Rightarrow> 'p Product \<Rightarrow> 'p Store" where
  "addProduct s p = s\<lparr>products := products s @ [p]\<rparr>"

text \<open>
  \<^verbatim>\<open>for (auto &p : products) if (p.getId()==id) return &p; return nullptr;\<close>
  The same scan is the inner loop of the first pass of \<^verbatim>\<open>placeOrder\<close>. It works on the
  vector of products; \<open>None\<close> is the null pointer.
\<close>

fun findProductById :: "'p Product list \<Rightarrow> int \<Rightarrow> 'p Product option" where
  "findProductById [] i = None"
| "findProductById (p # ps) i =
     (if product_id p = i then Some p else findProductById ps i)"

definition listProducts :: "'p Store \<Rightarrow> 'p Product list" where
  "listProducts s = products s"

text \<open>\<^verbatim>\<open>int generateOrderId() { return nextOrderId++; }\<close>\<close>

definition generateOrderId :: "'p Store \<Rightarrow> int \<times> 'p Store" where
  "generateOrderId s = (nextOrderId s, s\<lparr>nextOrderId := int_add (nextOrderId s) 1\<rparr>)"

text \<open>
  The two messages that \<^verbatim>\<open>placeOrder\<close> writes to \<^verbatim>\<open>err\<close>:
  \<^verbatim>\<open>"Produto nao encontrado: " + to_string(it.productId)\<close> is \<open>ProductNotFound\<close> of the id,
  \<^verbatim>\<open>"Estoque insuficiente para: " + p->getName()\<close> is \<open>InsufficientStock\<close> of the name.
\<close>

datatype StockError = ProductNotFound int | InsufficientStock string

text \<open>
  The first pass of \<^verbatim>\<open>placeOrder\<close> (\<^verbatim>\<open>// verificar estoque\<close>): the items in order, with
  a return at the first one whose product is missing or has less stock than the item asks.
\<close>

fun check_stock :: "'p Product list \<Rightarrow> 'p CartItem list \<Rightarrow> StockError option" where
  "check_stock ps [] = None"
| "check_stock ps (it # its) =
     (case findProductById ps (productId it) of
        None \<Rightarrow> Some (ProductNotFound (productId it))
      | Some p \<Rightarrow>
          if stock p < qty it then Some (InsufficientStock (name p))
          else check_stock ps its)"

text \<open>
  The inner loop of the second pass:
  \<^verbatim>\<open>for (auto &pp : products) if (pp.getId()==it.productId)
      { pp.decreaseStock(it.qty); break; }\<close>
  The value that \<^verbatim>\<open>decreaseStock\<close> returns is dropped.
\<close>

fun decrease_first :: "'p Product list \<Rightarrow> int \<Rightarrow> int \<Rightarrow> 'p Product list" where
  "decrease_first [] i q = []"
| "decrease_first (pp # ps) i q =
     (if product_id pp = i then snd (decreaseStock pp q) # ps
      else pp # decrease_first ps i q)"

text \<open>The second pass (\<^verbatim>\<open>// reduzir estoque\<close>).\<close>

fun reduce_stock :: "'p Product list \<Rightarrow> 'p CartItem list \<Rightarrow> 'p Product list" where
  "reduce_stock ps [] = ps"
| "reduce_stock ps (it # its) =
     reduce_stock (decrease_first ps (productId it) (qty it)) its"

text \<open>
  \<^verbatim>\<open>bool placeOrder(const Order &o, string &err)\<close>: \<open>Inl e\<close> is the return of
  \<^verbatim>\<open>false\<close> with \<^verbatim>\<open>err\<close> set, \<open>Inr ()\<close> the return of \<^verbatim>\<open>true\<close>.
\<close>

definition placeOrder :: "'p Store \<Rightarrow> 'p Order \<Rightarrow> (StockError + unit) \<times> 'p Store" where
  "placeOrder s ord =
     (case check_stock (products s) (items ord) of
        Some e \<Rightarrow> (Inl e, s)
      | None \<Rightarrow> (Inr (), s\<lparr>products := reduce_stock (products s) (items ord)\<rparr>))"

subsection \<open>SessionManager\<close>

text \<open>\<^verbatim>\<open>unordered_map<int, vector<CartItem>> carts\<close>, from customer id to cart.\<close>

record 'p SessionManager =
  carts :: "int \<rightharpoonup> 'p CartItem list"

definition SessionManager_init :: "'p SessionManager" where
  "SessionManager_init = \<lparr>carts = Map.empty\<rparr>"

text \<open>
  \<^verbatim>\<open>carts[customerId]\<close>: \<^verbatim>\<open>operator[]\<close> inserts an empty vector under a key that is
  not in the map and returns a reference to the entry.
\<close>

definition carts_at :: "'p SessionManager \<Rightarrow> int \<Rightarrow> 'p CartItem list \<times> 'p SessionManager" where
  "carts_at s customerId =
     (case carts s customerId of
        None \<Rightarrow> ([], s\<lparr>carts := (carts s)(customerId \<mapsto> [])\<rparr>)
      | Some cart \<Rightarrow> (cart, s))"

text \<open>
  The loop of \<^verbatim>\<open>addToCart\<close> with the \<^verbatim>\<open>push_back\<close> after it:
  \<^verbatim>\<open>for (auto &ci : cart) if (ci.productId==item.productId)
      { ci.qty += item.qty; return; }
  cart.push_back(item);\<close>
\<close>

fun merge_item :: "'p CartItem list \<Rightarrow> 'p CartItem \<Rightarrow> 'p CartItem list" where
  "merge_item [] item = [item]"
| "merge_item (ci # cart) item =
     (if productId ci = productId item
      then ci\<lparr>qty := int_add (qty ci) (qty item)\<rparr> # cart
      else ci # merge_item cart item)"

definition addToCart ::
  "'p SessionManager \<Rightarrow> int \<Rightarrow> 'p CartItem \<Rightarrow> 'p SessionManager" where
  "addToCart s customerId item =
     (case carts_at s customerId of
        (cart, s1) \<Rightarrow> s1\<lparr>carts := (carts s1)(customerId \<mapsto> merge_item cart item)\<rparr>)"

text \<open>\<^verbatim>\<open>vector<CartItem> getCart(int customerId) { return carts[customerId]; }\<close>\<close>

definition getCart :: "'p SessionManager \<Rightarrow> int \<Rightarrow> 'p CartItem list \<times> 'p SessionManager" where
  "getCart s customerId = carts_at s customerId"

text \<open>\<^verbatim>\<open>void clearCart(int customerId) { carts.erase(customerId); }\<close>\<close>

definition clearCart :: "'p SessionManager \<Rightarrow> int \<Rightarrow> 'p SessionManager" where
  "clearCart s customerId = s\<lparr>carts := (carts s)(customerId := None)\<rparr>"

subsection \<open>The handlers of main\<close>

text \<open>
  A request body is \<open>None\<close> when \<^verbatim>\<open>json::parse\<close> or \<^verbatim>\<open>j.value\<close> throws, which the
  handler's \<^verbatim>\<open>catch (...)\<close> answers with status 400, and otherwise the values that
  \<^verbatim>\<open>j.value\<close> reads from it, defaults included. The answers of the two handlers:
\<close>

datatype 'p Response =
    InvalidJson
  | InvalidParams
  | InvalidCustomerId
  | ProductMissing
  | ProductOutOfStock
  | CartOk
  | EmptyCart
  | OrderRejected StockError
  | OrderPlaced "'p Order"

text \<open>
  \<^verbatim>\<open>POST /cart/add\<close>, on the body \<^verbatim>\<open>{customerId, productId, qty}\<close>.
\<close>

definition cart_add ::
  "'p Store \<times> 'p SessionManager \<Rightarrow> (int \<times> int \<times> int) option \<Rightarrow>
     'p Response \<times> 'p Store \<times> 'p SessionManager" where
  "cart_add st body =
     (case st of (store, sessions) \<Rightarrow>
      case body of
        None \<Rightarrow> (InvalidJson, store, sessions)
      | Some (customerId, prodId, q) \<Rightarrow>
          if customerId \<le> 0 \<or> prodId \<le> 0 \<or> q \<le> 0
          then (InvalidParams, store, sessions)
          else case findProductById (products store) prodId of
            None \<Rightarrow> (ProductMissing, store, sessions)
          | Some p \<Rightarrow>
              if stock p \<le> 0 then (ProductOutOfStock, store, sessions)
              else (CartOk, store,
                    addToCart sessions customerId
                      \<lparr>productId = product_id p, productName = name p,
                       unitPrice = price p, qty = q\<rparr>))"

text \<open>
  \<^verbatim>\<open>POST /checkout\<close>, on the body \<^verbatim>\<open>{customerId}\<close>.
\<close>

definition checkout ::
  "'p Store \<times> 'p SessionManager \<Rightarrow> int option \<Rightarrow>
     'p Response \<times> 'p Store \<times> 'p SessionManager" where
  "checkout st body =
     (case st of (store, sessions) \<Rightarrow>
      case body of
        None \<Rightarrow> (InvalidJson, store, sessions)
      | Some customerId \<Rightarrow>
          if customerId \<le> 0 then (InvalidCustomerId, store, sessions)
          else case getCart sessions customerId of
            (cart, sessions1) \<Rightarrow>
              if cart = [] then (EmptyCart, store, sessions1)
              else case generateOrderId store of
                (orderId, store1) \<Rightarrow>
                  let ord = \<lparr>order_id = orderId, items = cart\<rparr> in
                  case placeOrder store1 ord of
                    (Inl err, store2) \<Rightarrow> (OrderRejected err, store2, sessions1)
                  | (Inr u, store2) \<Rightarrow>
                      (OrderPlaced ord, store2, clearCart sessions1 customerId))"

subsection \<open>Sequences of calls\<close>

text \<open>
  A client of a \<^verbatim>\<open>Store\<close> calls its member functions one after the other; the run of a
  list of calls collects the ids that \<^verbatim>\<open>generateOrderId\<close> returns.
\<close>

datatype 'p StoreCall =
    AddProduct "'p Product"
  | GenerateOrderId
  | PlaceOrder "'p Order"

fun run_store :: "'p Store \<Rightarrow> 'p StoreCall list \<Rightarrow> int list \<times> 'p Store" where
  "run_store s [] = ([], s)"
| "run_store s (AddProduct p # cs) = run_store (addProduct s p) cs"
| "run_store s (PlaceOrder ord # cs) = run_store (snd (placeOrder s ord)) cs"
| "run_store s (GenerateOrderId # cs) =
     (case generateOrderId s of
        (i, s') \<Rightarrow> (case run_store s' cs of (ids, t) \<Rightarrow> (i # ids, t)))"

text \<open>
  The same for a \<^verbatim>\<open>SessionManager\<close>; the run collects the carts that \<^verbatim>\<open>getCart\<close>
  returns, which is all a client can see of the object.
\<close>

datatype 'p SessionCall =
    AddToCart int "'p CartItem"
  | GetCart int
  | ClearCart int

fun run_session ::
  "'p SessionManager \<Rightarrow> 'p SessionCall list \<Rightarrow>
     'p CartItem list list \<times> 'p SessionManager" where
  "run_session s [] = ([], s)"
| "run_session s (AddToCart c item # cs) = run_session (addToCart s c item) cs"
| "run_session s (ClearCart c # cs) = run_session (clearCart s c) cs"
| "run_session s (GetCart c # cs) =
     (case getCart s c of
        (cart, s') \<Rightarrow> (case run_session s' cs of (obs, t) \<Rightarrow> (cart # obs, t)))"

text \<open>A list of \<^verbatim>\<open>addToCart\<close> calls for one customer.\<close>

fun add_all ::
  "'p SessionManager \<Rightarrow> int \<Rightarrow> 'p CartItem list \<Rightarrow> 'p SessionManager" where
  "add_all s c [] = s"
| "add_all s c (item # its) = add_all (addToCart s c item) c its"

text \<open>
  The requests that change state, served one after the other by the two handlers; the run
  collects the answers.
\<close>

datatype Request =
    PostCartAdd "(int \<times> int \<times> int) option"
  | PostCheckout "int option"

fun serve ::
  "'p Store \<times> 'p SessionManager \<Rightarrow> Request list \<Rightarrow>
     'p Response list \<times> 'p Store \<times> 'p SessionManager" where
  "serve st [] = ([], st)"
| "serve st (PostCartAdd body # rs) =
     (case cart_add st body of
        (resp, st') \<Rightarrow> (case serve st' rs of (resps, t) \<Rightarrow> (resp # resps, t)))"
| "serve st (PostCheckout body # rs) =
     (case checkout st body of
        (resp, st') \<Rightarrow> (case serve st' rs of (resps, t) \<Rightarrow> (resp # resps, t)))"

subsection \<open>Notions of the specification\<close>

text \<open>
  What the specification calls decrementing the stock for every line of an order: each
  line, in order, takes its quantity from the stock of the product it refers to (the first
  product with its id), whatever the quantity and the stock are.
\<close>

fun subtract_first :: "'p Product list \<Rightarrow> int \<Rightarrow> int \<Rightarrow> 'p Product list" where
  "subtract_first [] i q = []"
| "subtract_first (pp # ps) i q =
     (if product_id pp = i then pp\<lparr>stock := stock pp - q\<rparr> # ps
      else pp # subtract_first ps i q)"

fun decrement_every_line :: "'p Product list \<Rightarrow> 'p CartItem list \<Rightarrow> 'p Product list" where
  "decrement_every_line ps [] = ps"
| "decrement_every_line ps (it # its) =
     decrement_every_line (subtract_first ps (productId it) (qty it)) its"

text \<open>
  What the lines of an order ask of one product, and an order that the stock can serve:
  no line asks for a negative quantity, every line refers to a product of the catalog, and
  the lines that refer to the same product ask, together, no more than its stock.
\<close>

definition demand :: "'p CartItem list \<Rightarrow> int \<Rightarrow> int" where
  "demand its i = sum_list (map qty (filter (\<lambda>it. productId it = i) its))"

definition order_fits :: "'p Product list \<Rightarrow> 'p CartItem list \<Rightarrow> bool" where
  "order_fits ps its =
     list_all (\<lambda>it. 0 \<le> qty it \<and>
        (case findProductById ps (productId it) of
           None \<Rightarrow> False
         | Some p \<Rightarrow> demand its (productId it) \<le> stock p)) its"

text \<open>A line that passes both checks of the first pass.\<close>

definition line_ok :: "'p Product list \<Rightarrow> 'p CartItem \<Rightarrow> bool" where
  "line_ok ps it =
     (case findProductById ps (productId it) of
        None \<Rightarrow> False
      | Some p \<Rightarrow> qty it \<le> stock p)"

text \<open>The invariant of the catalog: no product has a negative stock.\<close>

definition stock_nonneg :: "'p Product list \<Rightarrow> bool" where
  "stock_nonneg ps = list_all (\<lambda>p. 0 \<le> stock p) ps"

text \<open>The cart of a customer as a client sees it: empty when there is no entry.\<close>

definition cart_of :: "'p SessionManager \<Rightarrow> int \<Rightarrow> 'p CartItem list" where
  "cart_of s c = (case carts s c of None \<Rightarrow> [] | Some cart \<Rightarrow> cart)"

text \<open>Two states of the cart collection in which every customer has the same cart.\<close>

definition same_carts :: "'p SessionManager \<Rightarrow> 'p SessionManager \<Rightarrow> bool" where
  "same_carts s t = (\<forall>c. cart_of s c = cart_of t c)"

text \<open>The carts that the handlers build have no two lines for the same product.\<close>

definition carts_distinct :: "'p SessionManager \<Rightarrow> bool" where
  "carts_distinct s = (\<forall>c. distinct (map productId (cart_of s c)))"

text \<open>The number of \<^verbatim>\<open>generateOrderId\<close> calls in a list of calls.\<close>

definition id_requests :: "'p StoreCall list \<Rightarrow> nat" where
  "id_requests cs = length (filter (\<lambda>c. c = GenerateOrderId) cs)"

subsection \<open>The catalog of main\<close>

text \<open>
  The three products that \<^verbatim>\<open>main\<close> adds to the store before it serves requests, with
  the prices read as decimal fractions and the names and descriptions as their UTF-8 bytes.
\<close>

definition main_store :: "real Store" where
  "main_store =
     addProduct
       (addProduct
          (addProduct Store_init
             \<lparr>product_id = 1,
              name = ''Teclado Mec'' @ [CHR 0xC3, CHR 0xA2] @ ''nico'',
              description = ''Teclado retroiluminado'', price = 299.90, stock = 10\<rparr>)
          \<lparr>product_id = 2, name = ''Mouse Gamer'',
           description = ''Mouse com alta precis'' @ [CHR 0xC3, CHR 0xA3] @ ''o'',
           price = 149.50, stock = 5\<rparr>)
       \<lparr>product_id = 3, name = ''Monitor 24-inch'', description = ''Full HD 75Hz'',
        price = 899.00, stock = 2\<rparr>"

text \<open>The cart items that \<^verbatim>\<open>POST /cart/add\<close> builds from these products.\<close>

definition mouse :: "int \<Rightarrow> real CartItem" where
  "mouse q = \<lparr>productId = 2, productName = ''Mouse Gamer'', unitPrice = 149.50, qty = q\<rparr>"

definition monitor :: "int \<Rightarrow> real CartItem" where
  "monitor q =
     \<lparr>productId = 3, productName = ''Monitor 24-inch'', unitPrice = 899.00, qty = q\<rparr>"

section \<open>Properties\<close>

subsection \<open>clearCart\<close>

lemma carts_clearCart: "carts (clearCart s c) = (carts s)(c := None)"
  by (simp add: clearCart_def)

text \<open>
  Claim C9. For every customer and every state of the cart collection, \<^verbatim>\<open>clearCart\<close>
  removes the customer's entry and no other; clearing again, or clearing a customer with
  no entry, changes nothing; and \<^verbatim>\<open>getCart\<close> right after \<^verbatim>\<open>clearCart\<close> returns the
  empty sequence.
\<close>

theorem clearCart_removes_idempotent:
  "carts (clearCart s c) c = None
   \<and> (\<forall>d. d \<noteq> c \<longrightarrow> carts (clearCart s c) d = carts s d)
   \<and> clearCart (clearCart s c) c = clearCart s c
   \<and> (carts s c = None \<longrightarrow> clearCart s c = s)
   \<and> fst (getCart (clearCart s c) c) = []"
proof -
  have "carts s c = None \<Longrightarrow> (carts s)(c := None) = carts s"
    by (rule ext) simp
  then show ?thesis
    by (simp add: clearCart_def getCart_def carts_at_def)
qed

theorem clearCart_removes_idempotent_witness:
  "carts (clearCart \<lparr>carts = [1 \<mapsto> [mouse 2], 2 \<mapsto> [monitor 1]]\<rparr> 1) 1 = None
   \<and> carts (clearCart \<lparr>carts = [1 \<mapsto> [mouse 2], 2 \<mapsto> [monitor 1]]\<rparr> 1) 2 = Some [monitor 1]
   \<and> carts (SessionManager_init :: real SessionManager) 1 = None
   \<and> clearCart (SessionManager_init :: real SessionManager) 1 = SessionManager_init"
  using clearCart_removes_idempotent [of "\<lparr>carts = [1 \<mapsto> [mouse 2], 2 \<mapsto> [monitor 1]]\<rparr>" 1]
    clearCart_removes_idempotent [of "SessionManager_init :: real SessionManager" 1]
  by (simp add: SessionManager_init_def)

subsection \<open>Arithmetic of int\<close>

text \<open>
  The wrap-around leaves a value of the range as it is, always gives a value of the range,
  and can be postponed to the end of a sum.
\<close>

lemma int_wrap_id: "INT_MIN \<le> n \<Longrightarrow> n \<le> INT_MAX \<Longrightarrow> int_wrap n = n"
proof -
  assume a: "INT_MIN \<le> n" "n \<le> INT_MAX"
  have "(n + 2147483648) mod 4294967296 = n + 2147483648"
    using a by (intro mod_pos_pos_trivial) (simp_all add: INT_MIN_def INT_MAX_def)
  then show ?thesis
    unfolding int_wrap_def by linarith
qed

lemma int_wrap_range: "INT_MIN \<le> int_wrap n \<and> int_wrap n \<le> INT_MAX"
proof -
  have "0 \<le> (n + 2147483648) mod 4294967296"
    by (rule pos_mod_sign) simp
  moreover have "(n + 2147483648) mod 4294967296 < 4294967296"
    by (rule pos_mod_bound) simp
  ultimately show ?thesis
    unfolding int_wrap_def INT_MIN_def INT_MAX_def by linarith
qed

lemma int_wrap_add_left: "int_wrap (int_wrap a + b) = int_wrap (a + b)"
proof -
  have "(a + 2147483648) mod 4294967296 - 2147483648 + b + 2147483648
      = (a + 2147483648) mod 4294967296 + b"
    by linarith
  then have "((a + 2147483648) mod 4294967296 - 2147483648 + b + 2147483648) mod 4294967296
      = ((a + 2147483648) mod 4294967296 + b) mod 4294967296"
    by (rule arg_cong)
  also have "\<dots> = (a + 2147483648 + b) mod 4294967296"
    by (rule mod_add_left_eq)
  also have "a + 2147483648 + b = a + b + 2147483648"
    by linarith
  finally show ?thesis
    unfolding int_wrap_def by (rule arg_cong)
qed

lemma int_wrap_over:
  "INT_MAX < n \<Longrightarrow> n \<le> 2 * INT_MAX \<Longrightarrow> int_wrap n = n - 4294967296"
proof -
  assume a: "INT_MAX < n" "n \<le> 2 * INT_MAX"
  have "(n + 2147483648 - 4294967296) mod 4294967296 = n + 2147483648 - 4294967296"
    using a by (intro mod_pos_pos_trivial) (simp_all add: INT_MAX_def)
  moreover have "(n + 2147483648 - 4294967296) mod 4294967296 = (n + 2147483648) mod 4294967296"
    by (rule minus_mod_self2)
  ultimately show ?thesis
    unfolding int_wrap_def by linarith
qed

subsection \<open>placeOrder: the two passes\<close>

lemmas main_defs = main_store_def Store_init_def addProduct_def mouse_def monitor_def

lemma findProductById_decrease_first:
  "findProductById (decrease_first ps i q) j =
     (if j = i then map_option (\<lambda>p. snd (decreaseStock p q)) (findProductById ps i)
      else findProductById ps j)"
  by (induction ps) (auto simp: decreaseStock_def)

lemma findProductById_subtract_first:
  "findProductById (subtract_first ps i q) j =
     (if j = i then map_option (\<lambda>p. p\<lparr>stock := stock p - q\<rparr>) (findProductById ps i)
      else findProductById ps j)"
  by (induction ps) auto

lemma decrease_first_subtract:
  "(\<And>p. findProductById ps i = Some p \<Longrightarrow> 0 \<le> q \<and> q \<le> stock p) \<Longrightarrow>
   decrease_first ps i q = subtract_first ps i q"
  by (induction ps) (auto simp: decreaseStock_def)

lemma check_stock_None_iff:
  "check_stock ps its = None \<longleftrightarrow> (\<forall>it \<in> set its. line_ok ps it)"
  by (induction its) (auto simp: line_ok_def split: option.splits)

lemma check_stock_first_bad:
  assumes "\<forall>x \<in> set pre. line_ok ps x"
  shows "check_stock ps (pre @ it # post) =
     (case findProductById ps (productId it) of
        None \<Rightarrow> Some (ProductNotFound (productId it))
      | Some p \<Rightarrow> if stock p < qty it then Some (InsufficientStock (name p))
                  else check_stock ps post)"
  using assms by (induction pre) (auto simp: line_ok_def split: option.splits)

lemma placeOrder_Inl_unchanged:
  "fst (placeOrder s ord) = Inl e \<Longrightarrow> snd (placeOrder s ord) = s"
  by (auto simp: placeOrder_def split: option.splits)

text \<open>
  \<^verbatim>\<open>placeOrder\<close> fails exactly when some line does not pass the checks, and then the
  order has a first such line.
\<close>

lemma placeOrder_fails_iff:
  "(\<exists>e. fst (placeOrder s ord) = Inl e) \<longleftrightarrow> (\<exists>it \<in> set (items ord). \<not> line_ok (products s) it)"
proof (cases "check_stock (products s) (items ord)")
  case None
  then show ?thesis
    by (simp add: placeOrder_def check_stock_None_iff [symmetric])
next
  case (Some e)
  then have "\<not> (\<forall>it \<in> set (items ord). line_ok (products s) it)"
    by (simp add: check_stock_None_iff [symmetric])
  with Some show ?thesis
    by (simp add: placeOrder_def)
qed

lemma first_failing_line:
  assumes "\<exists>it \<in> set its. \<not> line_ok ps it"
  shows "\<exists>pre it post. its = pre @ it # post \<and> (\<forall>x \<in> set pre. line_ok ps x) \<and> \<not> line_ok ps it"
proof -
  from split_list_first_prop [OF assms] obtain pre it post where
    "its = pre @ it # post" "\<not> line_ok ps it" "\<forall>x \<in> set pre. \<not> \<not> line_ok ps x"
    by blast
  then show ?thesis by auto
qed

text \<open>
  In an order without negative quantities, a line asks no more than all the lines for its
  product ask together.
\<close>

lemma demand_Cons:
  "demand (it # its) i = (if productId it = i then qty it else 0) + demand its i"
  by (simp add: demand_def)

lemma demand_nonneg: "\<forall>it \<in> set its. 0 \<le> qty it \<Longrightarrow> 0 \<le> demand its i"
  by (induction its) (auto simp: demand_Cons demand_def)

lemma qty_le_demand:
  "it \<in> set its \<Longrightarrow> \<forall>x \<in> set its. 0 \<le> qty x \<Longrightarrow> qty it \<le> demand its (productId it)"
proof (induction its)
  case Nil
  then show ?case by simp
next
  case (Cons x its)
  have n: "0 \<le> demand its (productId it)"
    using Cons.prems(2) by (intro demand_nonneg) simp
  show ?case
  proof (cases "it = x")
    case True
    with n show ?thesis by (simp add: demand_Cons)
  next
    case False
    with Cons have "qty it \<le> demand its (productId it)" by simp
    moreover have "0 \<le> qty x" using Cons.prems(2) by simp
    ultimately show ?thesis by (simp add: demand_Cons)
  qed
qed

lemma order_fits_iff:
  "order_fits ps its \<longleftrightarrow>
     (\<forall>it \<in> set its. 0 \<le> qty it \<and>
        (\<exists>p. findProductById ps (productId it) = Some p \<and> demand its (productId it) \<le> stock p))"
  by (auto simp: order_fits_def list_all_iff split: option.splits)

lemma order_fits_line_ok:
  assumes "order_fits ps its" and "it \<in> set its"
  shows "line_ok ps it"
proof -
  from assms obtain p where p: "findProductById ps (productId it) = Some p"
    and d: "demand its (productId it) \<le> stock p"
    by (auto simp: order_fits_iff)
  have "qty it \<le> demand its (productId it)"
    using assms by (intro qty_le_demand) (auto simp: order_fits_iff)
  with p d show ?thesis by (simp add: line_ok_def)
qed

lemma reduce_stock_fits:
  "order_fits ps its \<Longrightarrow> reduce_stock ps its = decrement_every_line ps its"
proof (induction its arbitrary: ps)
  case Nil
  then show ?case by simp
next
  case (Cons it its)
  let ?i = "productId it"
  from Cons.prems obtain p where p: "findProductById ps ?i = Some p"
    and d: "demand (it # its) ?i \<le> stock p" and q: "0 \<le> qty it"
    by (auto simp: order_fits_iff)
  have nn: "\<forall>x \<in> set its. 0 \<le> qty x"
    using Cons.prems by (auto simp: order_fits_iff)
  have "0 \<le> demand its ?i"
    using nn by (rule demand_nonneg)
  with d have le: "qty it \<le> stock p"
    by (simp add: demand_Cons)
  have step: "decrease_first ps ?i (qty it) = subtract_first ps ?i (qty it)"
    using p q le by (intro decrease_first_subtract) auto
  have "order_fits (subtract_first ps ?i (qty it)) its"
    unfolding order_fits_iff
  proof (intro ballI conjI)
    fix x assume x: "x \<in> set its"
    then show "0 \<le> qty x" using nn by simp
    from Cons.prems x obtain px where px: "findProductById ps (productId x) = Some px"
      and dx: "demand (it # its) (productId x) \<le> stock px"
      by (auto simp: order_fits_iff)
    show "\<exists>p'. findProductById (subtract_first ps ?i (qty it)) (productId x) = Some p'
        \<and> demand its (productId x) \<le> stock p'"
    proof (cases "productId x = ?i")
      case True
      with p px dx show ?thesis
        by (simp add: findProductById_subtract_first demand_Cons)
    next
      case False
      with px dx show ?thesis
        by (simp add: findProductById_subtract_first demand_Cons)
    qed
  qed
  then have "reduce_stock (subtract_first ps ?i (qty it)) its
      = decrement_every_line (subtract_first ps ?i (qty it)) its"
    by (rule Cons.IH)
  then show ?case by (simp add: step)
qed

text \<open>
  When the stock can serve the order, every line passes the first pass and no guard of
  \<^verbatim>\<open>decreaseStock\<close> fires in the second.
\<close>

lemma placeOrder_fits:
  assumes "order_fits (products s) (items ord)"
  shows "placeOrder s ord =
         (Inr (), s\<lparr>products := decrement_every_line (products s) (items ord)\<rparr>)"
proof -
  have "check_stock (products s) (items ord) = None"
    using assms by (simp add: check_stock_None_iff order_fits_line_ok)
  then show ?thesis
    using reduce_stock_fits [OF assms] by (simp add: placeOrder_def)
qed

lemma distinct_demand:
  "distinct (map productId its) \<Longrightarrow> it \<in> set its \<Longrightarrow> demand its (productId it) = qty it"
proof (induction its)
  case Nil
  then show ?case by simp
next
  case (Cons x its)
  show ?case
  proof (cases "it = x")
    case True
    have "filter (\<lambda>y. productId y = productId x) its = []"
      using Cons.prems(1) by (auto simp: filter_empty_conv image_iff)
    then show ?thesis by (simp add: True demand_def)
  next
    case False
    with Cons.prems have "it \<in> set its" "productId x \<noteq> productId it"
      by (auto simp: image_iff)
    with Cons show ?thesis by (simp add: demand_Cons)
  qed
qed

lemma placeOrder_distinct_lines:
  assumes "distinct (map productId (items ord))"
    and "\<forall>it \<in> set (items ord). 0 \<le> qty it"
  shows "(\<exists>e. placeOrder s ord = (Inl e, s))
     \<or> placeOrder s ord =
         (Inr (), s\<lparr>products := decrement_every_line (products s) (items ord)\<rparr>)"
proof (cases "check_stock (products s) (items ord)")
  case None
  then have ok: "\<forall>it \<in> set (items ord). line_ok (products s) it"
    by (simp add: check_stock_None_iff)
  have "order_fits (products s) (items ord)"
    unfolding order_fits_iff
  proof (intro ballI conjI)
    fix it assume it: "it \<in> set (items ord)"
    then show "0 \<le> qty it" using assms(2) by simp
    from ok it obtain p where "findProductById (products s) (productId it) = Some p"
      and "qty it \<le> stock p"
      by (auto simp: line_ok_def split: option.splits)
    then show "\<exists>p. findProductById (products s) (productId it) = Some p
        \<and> demand (items ord) (productId it) \<le> stock p"
      using distinct_demand [OF assms(1) it] by simp
  qed
  then show ?thesis by (simp add: placeOrder_fits)
next
  case (Some e)
  then show ?thesis by (simp add: placeOrder_def)
qed

text \<open>
  Claim C1, as amended. For every order, a call of \<^verbatim>\<open>placeOrder\<close> that returns
  \<^verbatim>\<open>false\<close> leaves the store as it was. For every order that the stock can serve (no
  line asks for a negative quantity, every line refers to a product of the catalog, and the
  lines for the same product ask together no more than its stock), \<^verbatim>\<open>placeOrder\<close>
  returns \<^verbatim>\<open>true\<close> and has taken, for every line, the line's quantity from the stock of
  the product the line refers to. For every order whose lines refer to pairwise different
  product ids and ask for quantities that are not negative, one of the two happens.
\<close>

theorem placeOrder_all_or_nothing:
  "(\<forall>e. fst (placeOrder s ord) = Inl e \<longrightarrow> snd (placeOrder s ord) = s)
   \<and> (order_fits (products s) (items ord) \<longrightarrow>
        placeOrder s ord =
          (Inr (), s\<lparr>products := decrement_every_line (products s) (items ord)\<rparr>))
   \<and> (distinct (map productId (items ord)) \<and> (\<forall>it \<in> set (items ord). 0 \<le> qty it) \<longrightarrow>
        (\<exists>e. placeOrder s ord = (Inl e, s))
        \<or> placeOrder s ord =
            (Inr (), s\<lparr>products := decrement_every_line (products s) (items ord)\<rparr>))"
  using placeOrder_Inl_unchanged [of s ord] placeOrder_fits [of s ord]
    placeOrder_distinct_lines [of ord s]
  by blast

text \<open>
  An order that fails at its third line, after two lines for the mice that together ask
  more than the stock; an order with two lines for the five mice that the stock can serve;
  and an order for two mice and three monitors, of which the store has two.
\<close>

theorem placeOrder_all_or_nothing_witness:
  "fst (placeOrder main_store \<lparr>order_id = 1, items = [mouse 3, mouse 3, monitor 5]\<rparr>)
       = Inl (InsufficientStock ''Monitor 24-inch'')
   \<and> snd (placeOrder main_store \<lparr>order_id = 1, items = [mouse 3, mouse 3, monitor 5]\<rparr>)
       = main_store
   \<and> order_fits (products main_store) [mouse 3, monitor 1, mouse 2]
   \<and> placeOrder main_store \<lparr>order_id = 1, items = [mouse 3, monitor 1, mouse 2]\<rparr> =
       (Inr (), main_store\<lparr>products :=
          decrement_every_line (products main_store) [mouse 3, monitor 1, mouse 2]\<rparr>)
   \<and> map stock (products (snd (placeOrder main_store
         \<lparr>order_id = 1, items = [mouse 3, monitor 1, mouse 2]\<rparr>))) = [10, 0, 1]
   \<and> distinct (map productId [mouse 2, monitor 3])
   \<and> 0 \<le> qty (mouse 2) \<and> 0 \<le> qty (monitor 3)
   \<and> placeOrder main_store \<lparr>order_id = 1, items = [mouse 2, monitor 3]\<rparr>
       = (Inl (InsufficientStock ''Monitor 24-inch''), main_store)"
proof -
  have f: "fst (placeOrder main_store \<lparr>order_id = 1, items = [mouse 3, mouse 3, monitor 5]\<rparr>)
       = Inl (InsufficientStock ''Monitor 24-inch'')"
    by (simp add: main_defs placeOrder_def)
  have o: "order_fits (products main_store) (items \<lparr>order_id = 1, items = [mouse 3, monitor 1, mouse 2]\<rparr>)"
    by (simp add: main_defs order_fits_def demand_def)
  have d: "distinct (map productId (items \<lparr>order_id = 1, items = [mouse 2, monitor 3]\<rparr>))
      \<and> (\<forall>it \<in> set (items \<lparr>order_id = 1, items = [mouse 2, monitor 3]\<rparr>). 0 \<le> qty it)"
    by (simp add: main_defs)
  have n: "\<not> placeOrder main_store \<lparr>order_id = 1, items = [mouse 2, monitor 3]\<rparr> =
          (Inr (), main_store\<lparr>products := decrement_every_line (products main_store)
             (items \<lparr>order_id = 1, items = [mouse 2, monitor 3]\<rparr>)\<rparr>)"
    by (simp add: main_defs placeOrder_def)
  have e: "fst (placeOrder main_store \<lparr>order_id = 1, items = [mouse 2, monitor 3]\<rparr>)
       = Inl (InsufficientStock ''Monitor 24-inch'')"
    by (simp add: main_defs placeOrder_def)
  from placeOrder_all_or_nothing [of main_store
      "\<lparr>order_id = 1, items = [mouse 3, mouse 3, monitor 5]\<rparr>"] f
  have 1: "snd (placeOrder main_store \<lparr>order_id = 1, items = [mouse 3, mouse 3, monitor 5]\<rparr>)
       = main_store"
    by blast
  from placeOrder_all_or_nothing [of main_store
      "\<lparr>order_id = 1, items = [mouse 3, monitor 1, mouse 2]\<rparr>"] o
  have 2: "placeOrder main_store \<lparr>order_id = 1, items = [mouse 3, monitor 1, mouse 2]\<rparr> =
       (Inr (), main_store\<lparr>products := decrement_every_line (products main_store)
          (items \<lparr>order_id = 1, items = [mouse 3, monitor 1, mouse 2]\<rparr>)\<rparr>)"
    by blast
  from placeOrder_all_or_nothing [of main_store
      "\<lparr>order_id = 1, items = [mouse 2, monitor 3]\<rparr>"] d n
  obtain e' where 3: "placeOrder main_store \<lparr>order_id = 1, items = [mouse 2, monitor 3]\<rparr>
       = (Inl e', main_store)"
    by blast
  with e have 4: "placeOrder main_store \<lparr>order_id = 1, items = [mouse 2, monitor 3]\<rparr>
       = (Inl (InsufficientStock ''Monitor 24-inch''), main_store)"
    by simp
  have 5: "map stock (decrement_every_line (products main_store) [mouse 3, monitor 1, mouse 2])
      = [10, 0, 1]"
    by (simp add: main_defs)
  from f 1 o 2 4 5 d show ?thesis
    by simp
qed

text \<open>
  Claim C1 as stated fails on two kinds of order, and in each \<^verbatim>\<open>placeOrder\<close> returns
  \<^verbatim>\<open>true\<close> with the stock of some lines taken and of others not.

  Two lines for the same product: the store has five mice and each line asks for three.
  Both lines pass the first pass, the second pass takes three for the first line, and
  \<^verbatim>\<open>decreaseStock\<close> refuses the second line, whose three are more than the two that are
  left. The stock of mice ends at two: neither the five of no line nor the minus one of
  every line.

  A line with a negative quantity: two mice and minus one monitor. Both lines pass the
  first pass, and \<^verbatim>\<open>decreaseStock\<close> refuses a quantity that is not positive. The mice
  go from five to three and the monitors stay at two.
\<close>

theorem placeOrder_partial_decrement_counterexample:
  "fst (placeOrder main_store \<lparr>order_id = 1, items = [mouse 3, mouse 3]\<rparr>) = Inr ()
   \<and> map stock (products main_store) = [10, 5, 2]
   \<and> map stock (products (snd (placeOrder main_store
         \<lparr>order_id = 1, items = [mouse 3, mouse 3]\<rparr>))) = [10, 2, 2]
   \<and> map stock (decrement_every_line (products main_store) [mouse 3, mouse 3]) = [10, - 1, 2]
   \<and> products (snd (placeOrder main_store \<lparr>order_id = 1, items = [mouse 3, mouse 3]\<rparr>))
       \<noteq> products main_store
   \<and> products (snd (placeOrder main_store \<lparr>order_id = 1, items = [mouse 3, mouse 3]\<rparr>))
       \<noteq> decrement_every_line (products main_store) [mouse 3, mouse 3]
   \<and> fst (placeOrder main_store \<lparr>order_id = 1, items = [mouse 2, monitor (- 1)]\<rparr>) = Inr ()
   \<and> map stock (products (snd (placeOrder main_store
         \<lparr>order_id = 1, items = [mouse 2, monitor (- 1)]\<rparr>))) = [10, 3, 2]
   \<and> map stock (decrement_every_line (products main_store) [mouse 2, monitor (- 1)])
       = [10, 3, 3]"
  by (simp add: main_defs placeOrder_def decreaseStock_def)

text \<open>
  Claim C2, as amended. \<^verbatim>\<open>placeOrder\<close> reports the first line of the order, in the
  order's sequence, that does not pass the checks: \<open>ProductNotFound\<close> of the line's product
  id when no product has it, \<open>InsufficientStock\<close> of the product's name when the product
  has less stock than the line asks. In both cases the store is left as it was.
\<close>

theorem placeOrder_first_failing_line:
  assumes "items ord = pre @ it # post"
    and "\<forall>x \<in> set pre. line_ok (products s) x"
  shows "(findProductById (products s) (productId it) = None \<longrightarrow>
            placeOrder s ord = (Inl (ProductNotFound (productId it)), s))
       \<and> (\<forall>p. findProductById (products s) (productId it) = Some p \<and> stock p < qty it \<longrightarrow>
            placeOrder s ord = (Inl (InsufficientStock (name p)), s))"
  using assms by (auto simp: placeOrder_def check_stock_first_bad)

theorem placeOrder_first_failing_line_witness:
  "findProductById (products main_store) 9 = None
   \<and> placeOrder main_store
        \<lparr>order_id = 1, items = [mouse 1, (mouse 1)\<lparr>productId := 9\<rparr>, monitor 5]\<rparr>
       = (Inl (ProductNotFound 9), main_store)
   \<and> placeOrder main_store
        \<lparr>order_id = 1, items = [mouse 1, monitor 5, (mouse 1)\<lparr>productId := 9\<rparr>]\<rparr>
       = (Inl (InsufficientStock ''Monitor 24-inch''), main_store)"
  using placeOrder_first_failing_line
      [of "\<lparr>order_id = 1, items = [mouse 1, (mouse 1)\<lparr>productId := 9\<rparr>, monitor 5]\<rparr>"
        "[mouse 1]" "(mouse 1)\<lparr>productId := 9\<rparr>" "[monitor 5]" main_store]
    placeOrder_first_failing_line
      [of "\<lparr>order_id = 1, items = [mouse 1, monitor 5, (mouse 1)\<lparr>productId := 9\<rparr>]\<rparr>"
        "[mouse 1]" "monitor 5" "[(mouse 1)\<lparr>productId := 9\<rparr>]" main_store]
  by (simp add: main_defs line_ok_def)

text \<open>
  Claim C2 as stated fails on an order whose first line asks for five of the two monitors
  and whose second line refers to product 9, which the catalog does not have: a line of
  the order refers to a missing product, and the error is \<open>InsufficientStock\<close>.
\<close>

theorem placeOrder_error_of_any_line_counterexample:
  "findProductById (products main_store) 9 = None
   \<and> fst (placeOrder main_store
        \<lparr>order_id = 1, items = [monitor 5, (mouse 1)\<lparr>productId := 9\<rparr>]\<rparr>)
       = Inl (InsufficientStock ''Monitor 24-inch'')
   \<and> fst (placeOrder main_store
        \<lparr>order_id = 1, items = [monitor 5, (mouse 1)\<lparr>productId := 9\<rparr>]\<rparr>)
       \<noteq> Inl (ProductNotFound 9)"
  by (simp add: main_defs placeOrder_def)

subsection \<open>The stock is never negative\<close>

lemma stock_nonneg_decrease_first:
  "stock_nonneg ps \<Longrightarrow> stock_nonneg (decrease_first ps i q)"
  by (induction ps) (auto simp: stock_nonneg_def decreaseStock_def)

lemma stock_nonneg_reduce_stock:
  "stock_nonneg ps \<Longrightarrow> stock_nonneg (reduce_stock ps its)"
  by (induction its arbitrary: ps) (auto simp: stock_nonneg_decrease_first)

lemma increaseStock_in_range:
  assumes "0 \<le> stock p" and "stock p + q \<le> INT_MAX"
  shows "stock (increaseStock p q) = (if 0 < q then stock p + q else stock p)"
proof (cases "0 < q")
  case True
  with assms have "int_wrap (stock p + q) = stock p + q"
    by (intro int_wrap_id) (simp_all add: INT_MIN_def)
  with True show ?thesis by (simp add: increaseStock_def int_add_def)
next
  case False
  then show ?thesis by (simp add: increaseStock_def)
qed

lemma increaseStock_overflow:
  "0 \<le> stock p \<Longrightarrow> stock p \<le> INT_MAX \<Longrightarrow> q \<le> INT_MAX \<Longrightarrow> INT_MAX < stock p + q \<Longrightarrow>
     stock (increaseStock p q) = stock p + q - 4294967296 \<and> stock (increaseStock p q) < 0"
proof -
  assume a: "0 \<le> stock p" "stock p \<le> INT_MAX" "q \<le> INT_MAX" "INT_MAX < stock p + q"
  then have q: "0 < q" by simp
  have "int_wrap (stock p + q) = stock p + q - 4294967296"
    using a by (intro int_wrap_over) simp_all
  with q have "stock (increaseStock p q) = stock p + q - 4294967296"
    by (simp add: increaseStock_def int_add_def)
  moreover have "stock p + q - 4294967296 < 0"
    using a unfolding INT_MAX_def by linarith
  ultimately show ?thesis by simp
qed

text \<open>
  Claim C3, as amended. In a store where no product has a negative stock, \<^verbatim>\<open>addProduct\<close>
  of a product whose stock is not negative and \<^verbatim>\<open>placeOrder\<close> leave no product with a
  negative stock; on a product whose stock is not negative, \<^verbatim>\<open>decreaseStock\<close> leaves a
  stock that is not negative, and so does \<^verbatim>\<open>increaseStock\<close> when the stock and the
  quantity add up to at most \<open>INT_MAX\<close>. When they add up to more, \<^verbatim>\<open>increaseStock\<close>
  leaves a negative stock.
\<close>

theorem stock_never_negative:
  "(stock_nonneg (products s) \<and> 0 \<le> stock p \<longrightarrow> stock_nonneg (products (addProduct s p)))
   \<and> (stock_nonneg (products s) \<longrightarrow> stock_nonneg (products (snd (placeOrder s ord))))
   \<and> (0 \<le> stock p \<longrightarrow> 0 \<le> stock (snd (decreaseStock p q)))
   \<and> (0 \<le> stock p \<and> stock p + q \<le> INT_MAX \<longrightarrow> 0 \<le> stock (increaseStock p q))
   \<and> (0 \<le> stock p \<and> stock p \<le> INT_MAX \<and> q \<le> INT_MAX \<and> INT_MAX < stock p + q \<longrightarrow>
        stock (increaseStock p q) < 0)"
proof -
  have "stock_nonneg (products s) \<Longrightarrow> stock_nonneg (products (snd (placeOrder s ord)))"
    by (auto simp: placeOrder_def stock_nonneg_reduce_stock split: option.splits)
  moreover have "0 \<le> stock p \<Longrightarrow> stock p + q \<le> INT_MAX \<Longrightarrow> 0 \<le> stock (increaseStock p q)"
    using increaseStock_in_range [of p q] by (simp split: if_splits)
  moreover have "0 \<le> stock p \<Longrightarrow> stock p \<le> INT_MAX \<Longrightarrow> q \<le> INT_MAX \<Longrightarrow>
      INT_MAX < stock p + q \<Longrightarrow> stock (increaseStock p q) < 0"
    using increaseStock_overflow [of p q] by simp
  ultimately show ?thesis
    by (auto simp: addProduct_def stock_nonneg_def decreaseStock_def)
qed

theorem stock_never_negative_witness:
  "stock_nonneg (products main_store)
   \<and> stock_nonneg (products (addProduct main_store (hd (products main_store))))
   \<and> stock_nonneg (products (snd (placeOrder main_store
         \<lparr>order_id = 1, items = [mouse 3, mouse 3]\<rparr>)))
   \<and> 0 \<le> stock (snd (decreaseStock (hd (products main_store)) 10))
   \<and> stock (hd (products main_store)) + 2147483637 \<le> INT_MAX
   \<and> 0 \<le> stock (increaseStock (hd (products main_store)) 2147483637)
   \<and> stock (increaseStock (hd (products main_store)) 2147483637) = 2147483647
   \<and> INT_MAX < stock (hd (products main_store)) + 2147483638
   \<and> stock (increaseStock (hd (products main_store)) 2147483638) < 0"
  using stock_never_negative [of main_store "hd (products main_store)"
      "\<lparr>order_id = 1, items = [mouse 3, mouse 3]\<rparr>" 10]
    stock_never_negative [of main_store "hd (products main_store)"
      "\<lparr>order_id = 1, items = [mouse 3, mouse 3]\<rparr>" 2147483637]
    stock_never_negative [of main_store "hd (products main_store)"
      "\<lparr>order_id = 1, items = [mouse 3, mouse 3]\<rparr>" 2147483638]
  by (simp add: main_defs stock_nonneg_def increaseStock_def int_add_def int_wrap_def INT_MAX_def)

text \<open>
  Claim C3 as stated fails for \<^verbatim>\<open>increaseStock\<close>: \<^verbatim>\<open>stock += qty\<close> has no test of the
  range. On the keyboard of \<^verbatim>\<open>main\<close>, with its stock of 10, a restock of 2147483647
  leaves a stock of -2147483639; on a stock of 2147483647, a restock of 1 leaves
  -2147483648.
\<close>

theorem increaseStock_overflow_counterexample:
  "0 \<le> stock (hd (products main_store))
   \<and> stock (hd (products main_store)) = 10
   \<and> stock (increaseStock (hd (products main_store)) 2147483647) = - 2147483639
   \<and> stock (increaseStock ((hd (products main_store))\<lparr>stock := 2147483647\<rparr>) 1) = - 2147483648"
  by (simp add: main_defs increaseStock_def int_add_def int_wrap_def)

subsection \<open>Order ids\<close>

lemma nextOrderId_placeOrder: "nextOrderId (snd (placeOrder s ord)) = nextOrderId s"
  by (simp add: placeOrder_def split: option.splits)

lemma run_store_length: "length (fst (run_store s cs)) = id_requests cs"
  by (induction s cs rule: run_store.induct)
    (simp_all add: id_requests_def generateOrderId_def case_prod_beta)

lemma run_store_no_requests:
  "id_requests cs = 0 \<Longrightarrow>
     fst (run_store s cs) = [] \<and> nextOrderId (snd (run_store s cs)) = nextOrderId s"
  by (induction s cs rule: run_store.induct)
    (simp_all add: id_requests_def addProduct_def nextOrderId_placeOrder)

lemma run_store_ids:
  "INT_MIN \<le> nextOrderId s \<Longrightarrow> nextOrderId s \<le> INT_MAX \<Longrightarrow>
   nextOrderId s + int (id_requests cs) \<le> INT_MAX + 1 \<Longrightarrow>
     fst (run_store s cs) = [nextOrderId s .. nextOrderId s + int (id_requests cs) - 1]
     \<and> nextOrderId (snd (run_store s cs)) = int_wrap (nextOrderId s + int (id_requests cs))"
proof (induction s cs rule: run_store.induct)
  case (1 s)
  then have "int_wrap (nextOrderId s) = nextOrderId s"
    by (intro int_wrap_id) simp_all
  then show ?case by (simp add: id_requests_def)
next
  case (2 s p cs)
  then show ?case by (simp add: addProduct_def id_requests_def)
next
  case (3 s ord cs)
  then show ?case by (simp add: nextOrderId_placeOrder id_requests_def)
next
  case (4 s cs)
  let ?k = "nextOrderId s"
  let ?s' = "s\<lparr>nextOrderId := int_add ?k 1\<rparr>"
  have g: "generateOrderId s = (?k, ?s')"
    by (simp add: generateOrderId_def)
  have n: "id_requests (GenerateOrderId # cs) = Suc (id_requests cs)"
    by (simp add: id_requests_def)
  have up: "[?k .. ?k + int (Suc (id_requests cs)) - 1]
      = ?k # [?k + 1 .. ?k + int (Suc (id_requests cs)) - 1]"
    by (rule upto_rec1) simp
  show ?case
  proof (cases "?k = INT_MAX")
    case True
    with "4.prems" have z: "id_requests cs = 0" by (simp add: n)
    from run_store_no_requests [OF z, of ?s'] show ?thesis
      by (simp add: g n z int_add_def case_prod_beta)
  next
    case False
    with "4.prems" have "int_wrap (?k + 1) = ?k + 1"
      by (intro int_wrap_id) (simp_all add: INT_MIN_def)
    then have k1: "int_add ?k 1 = ?k + 1"
      by (simp add: int_add_def)
    have "fst (run_store ?s' cs) = [nextOrderId ?s' .. nextOrderId ?s' + int (id_requests cs) - 1]
       \<and> nextOrderId (snd (run_store ?s' cs)) = int_wrap (nextOrderId ?s' + int (id_requests cs))"
      using "4.prems" False by (intro "4.IH" [OF g [symmetric]]) (simp_all add: k1 n)
    then have ih1: "fst (run_store ?s' cs) = [?k + 1 .. ?k + 1 + int (id_requests cs) - 1]"
      and ih2: "nextOrderId (snd (run_store ?s' cs)) = int_wrap (?k + 1 + int (id_requests cs))"
      by (simp_all add: k1)
    have e1: "?k + 1 + int (id_requests cs) - 1 = ?k + int (Suc (id_requests cs)) - 1"
      and e2: "?k + 1 + int (id_requests cs) = ?k + int (Suc (id_requests cs))"
      by simp_all
    have f: "fst (run_store s (GenerateOrderId # cs)) = ?k # fst (run_store ?s' cs)"
      and t: "snd (run_store s (GenerateOrderId # cs)) = snd (run_store ?s' cs)"
      by (simp_all add: g case_prod_beta)
    have "fst (run_store s (GenerateOrderId # cs)) = [?k .. ?k + int (Suc (id_requests cs)) - 1]"
      unfolding f ih1 e1 by (rule up [symmetric])
    moreover have "nextOrderId (snd (run_store s (GenerateOrderId # cs)))
        = int_wrap (?k + int (Suc (id_requests cs)))"
      unfolding t ih2 e2 by (rule refl)
    ultimately show ?thesis
      unfolding n by (rule conjI)
  qed
qed

lemma run_store_append:
  "run_store s (cs @ ds) =
     (fst (run_store s cs) @ fst (run_store (snd (run_store s cs)) ds),
      snd (run_store (snd (run_store s cs)) ds))"
proof (induction s cs rule: run_store.induct)
  case (4 s cs)
  have "(nextOrderId s, snd (generateOrderId s)) = generateOrderId s"
    by (simp add: generateOrderId_def)
  from "4.IH" [OF this] show ?case
    by (simp add: case_prod_beta)
qed simp_all

lemma id_requests_replicate: "id_requests (replicate n GenerateOrderId) = n"
  by (induction n) (simp_all add: id_requests_def)

text \<open>
  Claim C6, as amended. In every run of calls on a new store with at most \<open>INT_MAX\<close>
  calls of \<^verbatim>\<open>generateOrderId\<close>, whatever calls of \<^verbatim>\<open>addProduct\<close> and of
  \<^verbatim>\<open>placeOrder\<close>, failing or not, lie between them, the calls of \<^verbatim>\<open>generateOrderId\<close>
  return 1, 2, 3 and so on: the first returns 1, each later one returns more than the one
  before, and no id is returned twice. After fewer than \<open>INT_MAX\<close> calls the counter is
  one above the last id; after \<open>INT_MAX\<close> calls it is \<open>INT_MIN\<close>.
\<close>

theorem generateOrderId_strictly_increasing:
  assumes "int (id_requests cs) \<le> INT_MAX"
  shows "\<forall>ids s. run_store Store_init cs = (ids, s) \<longrightarrow>
         length ids = id_requests cs \<and> ids = [1 .. int (length ids)]
         \<and> sorted_wrt (<) ids \<and> distinct ids
         \<and> (int (length ids) < INT_MAX \<longrightarrow> nextOrderId s = int (length ids) + 1)
         \<and> (int (length ids) = INT_MAX \<longrightarrow> nextOrderId s = INT_MIN)"
proof (intro allI impI)
  fix ids s assume r: "run_store Store_init cs = (ids, s)"
  have l: "length ids = id_requests cs"
    using run_store_length [of Store_init cs] by (simp add: r)
  have "fst (run_store Store_init cs) = [1 .. 1 + int (id_requests cs) - 1]
    \<and> nextOrderId (snd (run_store Store_init cs)) = int_wrap (1 + int (id_requests cs))"
    using run_store_ids [of Store_init cs] assms
    by (simp add: Store_init_def INT_MIN_def INT_MAX_def)
  then have ids: "ids = [1 .. int (length ids)]"
    and n: "nextOrderId s = int_wrap (1 + int (length ids))"
    by (simp_all add: r l)
  have "nextOrderId s = int (length ids) + 1" if "int (length ids) < INT_MAX"
  proof -
    have "int_wrap (1 + int (length ids)) = 1 + int (length ids)"
      using that by (intro int_wrap_id) (simp_all add: INT_MIN_def)
    with n show ?thesis by simp
  qed
  moreover have "nextOrderId s = INT_MIN" if "int (length ids) = INT_MAX"
    using n by (simp add: that) (simp add: int_wrap_def INT_MAX_def INT_MIN_def)
  moreover have "sorted_wrt (<) [1 .. int (length ids)]" "distinct [1 .. int (length ids)]"
    by simp_all
  ultimately show "length ids = id_requests cs \<and> ids = [1 .. int (length ids)]
         \<and> sorted_wrt (<) ids \<and> distinct ids
         \<and> (int (length ids) < INT_MAX \<longrightarrow> nextOrderId s = int (length ids) + 1)
         \<and> (int (length ids) = INT_MAX \<longrightarrow> nextOrderId s = INT_MIN)"
    using l ids by metis
qed

text \<open>
  Three ids around an order that is refused (five monitors of two) and one that is served.
\<close>

theorem generateOrderId_strictly_increasing_witness:
  "int (id_requests
     [AddProduct \<lparr>product_id = 3, name = ''Monitor 24-inch'', description = ''Full HD 75Hz'',
        price = 899.00, stock = 2\<rparr>,
      GenerateOrderId, PlaceOrder \<lparr>order_id = 1, items = [monitor 5]\<rparr>,
      GenerateOrderId, PlaceOrder \<lparr>order_id = 2, items = [monitor 1]\<rparr>,
      GenerateOrderId]) \<le> INT_MAX
   \<and> run_store Store_init
     [AddProduct \<lparr>product_id = 3, name = ''Monitor 24-inch'', description = ''Full HD 75Hz'',
        price = 899.00, stock = 2\<rparr>,
      GenerateOrderId, PlaceOrder \<lparr>order_id = 1, items = [monitor 5]\<rparr>,
      GenerateOrderId, PlaceOrder \<lparr>order_id = 2, items = [monitor 1]\<rparr>,
      GenerateOrderId]
     = ([1, 2, 3],
        \<lparr>products = [\<lparr>product_id = 3, name = ''Monitor 24-inch'',
            description = ''Full HD 75Hz'', price = 899.00, stock = 1\<rparr>],
         nextOrderId = 4\<rparr>)
   \<and> sorted_wrt (<) [1, 2, 3 :: int]
   \<and> int (id_requests (replicate 2147483647 GenerateOrderId :: real StoreCall list)) = INT_MAX
   \<and> nextOrderId (snd (run_store (Store_init :: real Store)
         (replicate 2147483647 GenerateOrderId))) = INT_MIN"
proof -
  let ?cs = "[AddProduct \<lparr>product_id = 3, name = ''Monitor 24-inch'',
        description = ''Full HD 75Hz'', price = 899.00, stock = 2\<rparr>,
      GenerateOrderId, PlaceOrder \<lparr>order_id = 1, items = [monitor 5]\<rparr>,
      GenerateOrderId, PlaceOrder \<lparr>order_id = 2, items = [monitor 1]\<rparr>,
      GenerateOrderId]"
  let ?ds = "replicate 2147483647 GenerateOrderId :: real StoreCall list"
  have h1: "int (id_requests ?cs) \<le> INT_MAX"
    by (simp add: id_requests_def INT_MAX_def)
  have r1: "run_store Store_init ?cs
     = ([1, 2, 3],
        \<lparr>products = [\<lparr>product_id = 3, name = ''Monitor 24-inch'',
            description = ''Full HD 75Hz'', price = 899.00, stock = 1\<rparr>],
         nextOrderId = 4\<rparr>)"
    by (simp add: generateOrderId_def int_add_def int_wrap_def
        Store_init_def addProduct_def placeOrder_def monitor_def decreaseStock_def)
  have n: "int (id_requests ?ds) = INT_MAX"
    by (simp add: id_requests_replicate INT_MAX_def)
  then have h2: "int (id_requests ?ds) \<le> INT_MAX"
    by simp
  from generateOrderId_strictly_increasing [OF h1] r1
  have "sorted_wrt (<) [1, 2, 3 :: int]"
    by blast
  moreover from generateOrderId_strictly_increasing [OF h2] n
  have "nextOrderId (snd (run_store Store_init ?ds)) = INT_MIN"
    by (metis prod.collapse)
  ultimately show ?thesis
    using h1 r1 n by (simp only: simp_thms)
qed

text \<open>
  Claim C6 as stated fails at call number 2147483648: \<^verbatim>\<open>nextOrderId++\<close> has no test of
  the range, the call that returns 2147483647 wraps the counter, and the next call returns
  -2147483648, less than the id before it.
\<close>

theorem generateOrderId_wraps_counterexample:
  "fst (run_store (Store_init :: real Store) (replicate 2147483647 GenerateOrderId @ [GenerateOrderId]))
     = [1 .. 2147483647] @ [- 2147483648]"
proof -
  let ?cs = "replicate 2147483647 GenerateOrderId :: real StoreCall list"
  have n: "int (id_requests ?cs) = 2147483647"
    by (simp add: id_requests_replicate)
  have "fst (run_store Store_init ?cs) = [1 .. 1 + int (id_requests ?cs) - 1]
      \<and> nextOrderId (snd (run_store Store_init ?cs)) = int_wrap (1 + int (id_requests ?cs))"
    using run_store_ids [of Store_init ?cs]
    by (simp only: n) (simp add: Store_init_def INT_MIN_def INT_MAX_def)
  then have f: "fst (run_store Store_init ?cs) = [1 .. 2147483647]"
    and c: "nextOrderId (snd (run_store Store_init ?cs)) = - 2147483648"
    by (simp_all only: n) (simp_all add: int_wrap_def)
  have "fst (run_store (snd (run_store Store_init ?cs)) [GenerateOrderId]) = [- 2147483648]"
    by (simp add: generateOrderId_def c)
  with f show ?thesis
    by (simp only: run_store_append fst_conv)
qed

subsection \<open>addToCart\<close>

lemma merge_item_new:
  "\<forall>ci \<in> set cart. productId ci \<noteq> productId item \<Longrightarrow> merge_item cart item = cart @ [item]"
  by (induction cart) auto

lemma merge_item_found:
  "\<forall>x \<in> set pre. productId x \<noteq> productId item \<Longrightarrow> productId ci = productId item \<Longrightarrow>
     merge_item (pre @ ci # post) item = pre @ ci\<lparr>qty := int_add (qty ci) (qty item)\<rparr> # post"
  by (induction pre) auto

lemma addToCart_cart_of:
  "addToCart s c item = s\<lparr>carts := (carts s)(c \<mapsto> merge_item (cart_of s c) item)\<rparr>"
  by (auto simp: addToCart_def carts_at_def cart_of_def split: option.splits)

lemma cart_of_update:
  "cart_of (s\<lparr>carts := (carts s)(c \<mapsto> cart)\<rparr>) d = (if d = c then cart else cart_of s d)"
  by (simp add: cart_of_def)

text \<open>
  Calls for a product that has a line in the cart add their quantities to that line, with
  the wrap-around of \<^verbatim>\<open>int\<close>, and change nothing else in the cart.
\<close>

lemma add_all_merged:
  assumes "\<forall>x \<in> set pre. productId x \<noteq> pid" and "\<forall>it \<in> set its. productId it = pid"
  shows "productId ci = pid \<Longrightarrow> INT_MIN \<le> qty ci \<Longrightarrow> qty ci \<le> INT_MAX \<Longrightarrow>
     cart_of s c = pre @ ci # post \<Longrightarrow>
     cart_of (add_all s c its) c
       = pre @ ci\<lparr>qty := int_wrap (qty ci + sum_list (map qty its))\<rparr> # post"
  using assms(2)
proof (induction its arbitrary: s ci)
  case Nil
  then show ?case by (simp add: int_wrap_id)
next
  case (Cons it its)
  let ?ci = "ci\<lparr>qty := int_add (qty ci) (qty it)\<rparr>"
  have m: "merge_item (pre @ ci # post) it = pre @ ?ci # post"
    using assms(1) Cons.prems by (intro merge_item_found) auto
  have c1: "cart_of (addToCart s c it) c = pre @ ?ci # post"
    using m Cons.prems by (simp add: addToCart_cart_of cart_of_update)
  have r: "INT_MIN \<le> qty ?ci" "qty ?ci \<le> INT_MAX"
    using int_wrap_range [of "qty ci + qty it"] by (simp_all add: int_add_def)
  have "cart_of (add_all (addToCart s c it) c its) c
      = pre @ ?ci\<lparr>qty := int_wrap (qty ?ci + sum_list (map qty its))\<rparr> # post"
    using Cons.prems by (intro Cons.IH [OF _ r c1]) auto
  moreover have "int_wrap (qty ?ci + sum_list (map qty its))
      = int_wrap (qty ci + sum_list (map qty (it # its)))"
    by (simp add: int_add_def int_wrap_add_left add.assoc)
  ultimately show ?case by simp
qed

text \<open>
  Claim C7, as amended. After one or more \<^verbatim>\<open>addToCart\<close> calls for the same customer and
  the same product id, on a cart that had no line for the product, the cart is the old cart
  with one line added, and this is its only line for the product: the item of the first
  call with, as its quantity, the sum of the quantities of all the calls taken modulo
  \<open>2 ^ 32\<close> into the range of \<^verbatim>\<open>int\<close>. The quantity is the sum itself when the sum
  is in the range.
\<close>

theorem addToCart_merges_quantities:
  assumes "its \<noteq> []"
    and "\<forall>it \<in> set its. productId it = pid \<and> INT_MIN \<le> qty it \<and> qty it \<le> INT_MAX"
    and "\<forall>ci \<in> set (cart_of s c). productId ci \<noteq> pid"
  shows "cart_of (add_all s c its) c
           = cart_of s c @ [(hd its)\<lparr>qty := int_wrap (sum_list (map qty its))\<rparr>]
     \<and> filter (\<lambda>ci. productId ci = pid) (cart_of (add_all s c its) c)
           = [(hd its)\<lparr>qty := int_wrap (sum_list (map qty its))\<rparr>]
     \<and> (INT_MIN \<le> sum_list (map qty its) \<and> sum_list (map qty its) \<le> INT_MAX \<longrightarrow>
           filter (\<lambda>ci. productId ci = pid) (cart_of (add_all s c its) c)
             = [(hd its)\<lparr>qty := sum_list (map qty its)\<rparr>])"
proof -
  from assms(1) obtain it rest where its: "its = it # rest"
    by (cases its) auto
  have pid: "productId it = pid" and rest: "\<forall>x \<in> set rest. productId x = pid"
    and rng: "INT_MIN \<le> qty it" "qty it \<le> INT_MAX"
    using assms(2) its by simp_all
  have c1: "cart_of (addToCart s c it) c = cart_of s c @ [it]"
    using assms(3) pid by (simp add: addToCart_cart_of merge_item_new cart_of_update)
  have "cart_of (add_all (addToCart s c it) c rest) c
      = cart_of s c @ it\<lparr>qty := int_wrap (qty it + sum_list (map qty rest))\<rparr> # []"
    by (rule add_all_merged [OF assms(3) rest pid rng c1])
  then have e: "cart_of (add_all s c its) c
      = cart_of s c @ [(hd its)\<lparr>qty := int_wrap (sum_list (map qty its))\<rparr>]"
    by (simp add: its)
  have "filter (\<lambda>ci. productId ci = pid) (cart_of s c) = []"
    using assms(3) by (simp add: filter_empty_conv)
  with e pid have f: "filter (\<lambda>ci. productId ci = pid) (cart_of (add_all s c its) c)
           = [(hd its)\<lparr>qty := int_wrap (sum_list (map qty its))\<rparr>]"
    by (simp add: its)
  have g: "filter (\<lambda>ci. productId ci = pid) (cart_of (add_all s c its) c)
             = [(hd its)\<lparr>qty := sum_list (map qty its)\<rparr>]"
    if "INT_MIN \<le> sum_list (map qty its) \<and> sum_list (map qty its) \<le> INT_MAX"
  proof -
    have "int_wrap (sum_list (map qty its)) = sum_list (map qty its)"
      using that by (intro int_wrap_id) simp_all
    with f show ?thesis by (simp only:)
  qed
  from e f g show ?thesis by blast
qed

text \<open>Two mice, then three, in a cart that holds a monitor: one line of five mice.\<close>

theorem addToCart_merges_quantities_witness:
  "cart_of (add_all \<lparr>carts = [1 \<mapsto> [monitor 1]]\<rparr> 1 [mouse 2, mouse 3]) 1
       = [monitor 1, mouse 5]
   \<and> filter (\<lambda>ci. productId ci = 2)
         (cart_of (add_all \<lparr>carts = [1 \<mapsto> [monitor 1]]\<rparr> 1 [mouse 2, mouse 3]) 1)
       = [mouse 5]
   \<and> sum_list (map qty [mouse 2, mouse 3]) = 5"
proof -
  let ?s = "\<lparr>carts = [1 \<mapsto> [monitor 1]]\<rparr>"
  have h1: "[mouse 2, mouse 3] \<noteq> []"
    by simp
  have h2: "\<forall>it \<in> set [mouse 2, mouse 3].
      productId it = 2 \<and> INT_MIN \<le> qty it \<and> qty it \<le> INT_MAX"
    by (simp add: mouse_def INT_MIN_def INT_MAX_def)
  have h3: "\<forall>ci \<in> set (cart_of ?s 1). productId ci \<noteq> 2"
    by (simp add: cart_of_def monitor_def)
  have h4: "INT_MIN \<le> sum_list (map qty [mouse 2, mouse 3])
      \<and> sum_list (map qty [mouse 2, mouse 3]) \<le> INT_MAX"
    by (simp add: mouse_def INT_MIN_def INT_MAX_def)
  note t = addToCart_merges_quantities [OF h1 h2 h3]
  from t h4 have "filter (\<lambda>ci. productId ci = 2) (cart_of (add_all ?s 1 [mouse 2, mouse 3]) 1)
      = [(hd [mouse 2, mouse 3])\<lparr>qty := sum_list (map qty [mouse 2, mouse 3])\<rparr>]"
    by blast
  moreover from t have "cart_of (add_all ?s 1 [mouse 2, mouse 3]) 1
      = cart_of ?s 1 @ [(hd [mouse 2, mouse 3])\<lparr>qty := int_wrap (sum_list (map qty [mouse 2, mouse 3]))\<rparr>]"
    by blast
  ultimately show ?thesis
    by (simp add: cart_of_def mouse_def int_wrap_def)
qed

text \<open>
  Claim C7 as stated fails when the sum leaves the range of \<^verbatim>\<open>int\<close>:
  \<^verbatim>\<open>ci.qty += item.qty\<close> has no test of the range. After 2147483647 mice and one more,
  added by \<^verbatim>\<open>addToCart\<close> or by two requests that \<^verbatim>\<open>POST /cart/add\<close> accepts, the line
  has the quantity -2147483648, and the sum is 2147483648.
\<close>

theorem addToCart_sum_wraps_counterexample:
  "cart_of (add_all SessionManager_init 1 [mouse 2147483647, mouse 1]) 1
       = [mouse (- 2147483648)]
   \<and> sum_list (map qty [mouse 2147483647, mouse 1]) = 2147483648
   \<and> snd (snd (serve (main_store, SessionManager_init)
        [PostCartAdd (Some (1, 2, 2147483647)), PostCartAdd (Some (1, 2, 1))]))
       = \<lparr>carts = [1 \<mapsto> [mouse (- 2147483648)]]\<rparr>"
  by (simp add: SessionManager_init_def addToCart_def carts_at_def cart_of_def mouse_def
      int_add_def int_wrap_def cart_add_def main_defs)

subsection \<open>getCart\<close>

lemma getCart_cart_of: "fst (getCart s c) = cart_of s c"
  by (simp add: getCart_def carts_at_def cart_of_def split: option.splits)

lemma cart_of_getCart: "cart_of (snd (getCart s c)) d = cart_of s d"
  by (simp add: getCart_def carts_at_def cart_of_def split: option.splits)

lemma cart_of_clearCart: "cart_of (clearCart s c) d = (if d = c then [] else cart_of s d)"
  by (simp add: clearCart_def cart_of_def)

lemma same_carts_addToCart:
  "same_carts s t \<Longrightarrow> same_carts (addToCart s c item) (addToCart t c item)"
  by (simp add: same_carts_def addToCart_cart_of cart_of_update)

lemma same_carts_run_session:
  "same_carts s t \<Longrightarrow>
     fst (run_session s cs) = fst (run_session t cs)
     \<and> same_carts (snd (run_session s cs)) (snd (run_session t cs))"
proof (induction cs arbitrary: s t)
  case Nil
  then show ?case by simp
next
  case (Cons call cs)
  show ?case
  proof (cases call)
    case (AddToCart c item)
    from Cons.IH [OF same_carts_addToCart [OF Cons.prems, of c item]] show ?thesis
      by (simp add: AddToCart)
  next
    case (GetCart c)
    have fst: "fst (getCart s c) = fst (getCart t c)"
      using Cons.prems by (simp add: getCart_cart_of same_carts_def)
    have "same_carts (snd (getCart s c)) (snd (getCart t c))"
      using Cons.prems by (simp add: same_carts_def cart_of_getCart)
    from Cons.IH [OF this] fst show ?thesis
      by (simp add: GetCart case_prod_beta)
  next
    case (ClearCart c)
    have "same_carts (clearCart s c) (clearCart t c)"
      using Cons.prems by (simp add: same_carts_def cart_of_clearCart)
    from Cons.IH [OF this] show ?thesis
      by (simp add: ClearCart)
  qed
qed

text \<open>
  Claim C10. For a customer with no entry in the cart collection, \<^verbatim>\<open>getCart\<close>
  returns the empty sequence and leaves a changed collection behind: the customer now has
  an entry, holding the empty cart, and the set of keys has grown by the customer's id.
  No sequence of \<^verbatim>\<open>addToCart\<close>, \<^verbatim>\<open>getCart\<close> and \<^verbatim>\<open>clearCart\<close> calls tells the
  collection with the entry from the one without it: run on both, every \<^verbatim>\<open>getCart\<close>
  returns the same cart, and in the end every customer has the same cart in both.
\<close>

theorem getCart_inserts_empty_cart:
  assumes "carts s c = None"
  shows "fst (getCart s c) = []
     \<and> dom (carts (snd (getCart s c))) = insert c (dom (carts s))
     \<and> c \<notin> dom (carts s)
     \<and> carts (snd (getCart s c)) c = Some []
     \<and> (\<forall>cs. fst (run_session (snd (getCart s c)) cs) = fst (run_session s cs)
            \<and> same_carts (snd (run_session (snd (getCart s c)) cs)) (snd (run_session s cs)))"
proof -
  have "same_carts (snd (getCart s c)) s"
    by (simp add: same_carts_def cart_of_getCart)
  then have "fst (run_session (snd (getCart s c)) cs) = fst (run_session s cs)
            \<and> same_carts (snd (run_session (snd (getCart s c)) cs)) (snd (run_session s cs))" for cs
    by (rule same_carts_run_session)
  with assms show ?thesis
    by (auto simp: getCart_def carts_at_def)
qed

theorem getCart_inserts_empty_cart_witness:
  "carts (SessionManager_init :: real SessionManager) 7 = None
   \<and> fst (getCart (SessionManager_init :: real SessionManager) 7) = []
   \<and> dom (carts (snd (getCart (SessionManager_init :: real SessionManager) 7))) = {7}
   \<and> dom (carts (SessionManager_init :: real SessionManager)) = {}
   \<and> fst (run_session (snd (getCart SessionManager_init 7))
        [GetCart 7, AddToCart 7 (mouse 2), GetCart 7, ClearCart 7, GetCart 7])
      = [[], [mouse 2], []]
   \<and> fst (run_session SessionManager_init
        [GetCart 7, AddToCart 7 (mouse 2), GetCart 7, ClearCart 7, GetCart 7])
      = [[], [mouse 2], []]"
  using getCart_inserts_empty_cart [of "SessionManager_init :: real SessionManager" 7]
  by (simp add: SessionManager_init_def getCart_def carts_at_def addToCart_def clearCart_def)

subsection \<open>Checkout\<close>

lemma getCart_Some: "carts s c = Some cart \<Longrightarrow> getCart s c = (cart, s)"
  by (simp add: getCart_def carts_at_def)

text \<open>
  Claim C4. For a customer with a positive id and a cart that is not empty, the checkout
  takes an order id and calls \<^verbatim>\<open>placeOrder\<close> on the cart's lines. When \<^verbatim>\<open>placeOrder\<close>
  fails, the answer carries its error, and the cart collection, the customer's cart in it,
  is what it was before the request; the store has only its counter advanced. When
  \<^verbatim>\<open>placeOrder\<close> succeeds, and only then, the customer's cart is removed.
\<close>

theorem checkout_failure_keeps_cart:
  assumes "0 < customerId" and "carts sessions customerId = Some cart" and "cart \<noteq> []"
    and "generateOrderId store = (orderId, store1)"
  shows "(\<forall>e. fst (placeOrder store1 \<lparr>order_id = orderId, items = cart\<rparr>) = Inl e \<longrightarrow>
            checkout (store, sessions) (Some customerId)
              = (OrderRejected e, store1, sessions))
     \<and> (fst (placeOrder store1 \<lparr>order_id = orderId, items = cart\<rparr>) = Inr () \<longrightarrow>
            checkout (store, sessions) (Some customerId)
              = (OrderPlaced \<lparr>order_id = orderId, items = cart\<rparr>,
                 snd (placeOrder store1 \<lparr>order_id = orderId, items = cart\<rparr>),
                 clearCart sessions customerId)
            \<and> carts (clearCart sessions customerId) customerId = None)"
proof (intro conjI allI impI)
  fix e assume e: "fst (placeOrder store1 \<lparr>order_id = orderId, items = cart\<rparr>) = Inl e"
  then have "placeOrder store1 \<lparr>order_id = orderId, items = cart\<rparr> = (Inl e, store1)"
    using placeOrder_Inl_unchanged [OF e] by (simp add: prod_eq_iff)
  then show "checkout (store, sessions) (Some customerId)
              = (OrderRejected e, store1, sessions)"
    using assms by (simp add: checkout_def getCart_Some)
next
  assume "fst (placeOrder store1 \<lparr>order_id = orderId, items = cart\<rparr>) = Inr ()"
  then obtain store2 where
    p: "placeOrder store1 \<lparr>order_id = orderId, items = cart\<rparr> = (Inr (), store2)"
    by (cases "placeOrder store1 \<lparr>order_id = orderId, items = cart\<rparr>") auto
  have "checkout (store, sessions) (Some customerId)
      = (OrderPlaced \<lparr>order_id = orderId, items = cart\<rparr>, store2,
         clearCart sessions customerId)"
    using assms p by (simp add: checkout_def getCart_Some)
  then show "checkout (store, sessions) (Some customerId)
              = (OrderPlaced \<lparr>order_id = orderId, items = cart\<rparr>,
                 snd (placeOrder store1 \<lparr>order_id = orderId, items = cart\<rparr>),
                 clearCart sessions customerId)"
    by (simp add: p)
next
  show "carts (clearCart sessions customerId) customerId = None"
    by (simp add: clearCart_def)
qed

text \<open>
  Customer 1 with five monitors in the cart, of which the store has two, and with two.
\<close>

theorem checkout_failure_keeps_cart_witness:
  "checkout (main_store, \<lparr>carts = [1 \<mapsto> [monitor 5]]\<rparr>) (Some 1)
     = (OrderRejected (InsufficientStock ''Monitor 24-inch''),
        main_store\<lparr>nextOrderId := 2\<rparr>, \<lparr>carts = [1 \<mapsto> [monitor 5]]\<rparr>)
   \<and> checkout (main_store, \<lparr>carts = [1 \<mapsto> [monitor 2]]\<rparr>) (Some 1)
     = (OrderPlaced \<lparr>order_id = 1, items = [monitor 2]\<rparr>,
        snd (placeOrder (main_store\<lparr>nextOrderId := 2\<rparr>)
               \<lparr>order_id = 1, items = [monitor 2]\<rparr>),
        clearCart \<lparr>carts = [1 \<mapsto> [monitor 2]]\<rparr> 1)"
proof -
  have g: "generateOrderId main_store = (1, main_store\<lparr>nextOrderId := 2\<rparr>)"
    by (simp add: generateOrderId_def int_add_def int_wrap_def main_defs)
  have f: "fst (placeOrder (main_store\<lparr>nextOrderId := 2\<rparr>) \<lparr>order_id = 1, items = [monitor 5]\<rparr>)
      = Inl (InsufficientStock ''Monitor 24-inch'')"
    by (simp add: placeOrder_def main_defs)
  have k: "fst (placeOrder (main_store\<lparr>nextOrderId := 2\<rparr>) \<lparr>order_id = 1, items = [monitor 2]\<rparr>)
      = Inr ()"
    by (simp add: placeOrder_def main_defs)
  from checkout_failure_keeps_cart [of 1 "\<lparr>carts = [1 \<mapsto> [monitor 5]]\<rparr>" "[monitor 5]", OF _ _ _ g] f
    checkout_failure_keeps_cart [of 1 "\<lparr>carts = [1 \<mapsto> [monitor 2]]\<rparr>" "[monitor 2]", OF _ _ _ g] k
  show ?thesis by simp
qed

text \<open>
  Claim C5. For a customer with a positive id whose cart is empty or absent, the checkout
  answers \<open>EmptyCart\<close> and leaves the store as it was, products and next order id alike.
  In the cart collection every customer has the cart they had.
\<close>

theorem checkout_empty_cart:
  assumes "0 < customerId" and "cart_of sessions customerId = []"
  shows "checkout (store, sessions) (Some customerId)
           = (EmptyCart, store, snd (getCart sessions customerId))
     \<and> same_carts (snd (getCart sessions customerId)) sessions"
  using assms
  by (auto simp: checkout_def getCart_def carts_at_def cart_of_def same_carts_def
      split: option.splits)

theorem checkout_empty_cart_witness:
  "checkout (main_store, SessionManager_init) (Some 1)
     = (EmptyCart, main_store, \<lparr>carts = [1 \<mapsto> []]\<rparr>)
   \<and> checkout (main_store, \<lparr>carts = [1 \<mapsto> []]\<rparr>) (Some 1)
     = (EmptyCart, main_store, \<lparr>carts = [1 \<mapsto> []]\<rparr>)"
  using checkout_empty_cart [of 1 SessionManager_init main_store]
    checkout_empty_cart [of 1 "\<lparr>carts = [1 \<mapsto> []]\<rparr>" main_store]
  by (simp add: SessionManager_init_def cart_of_def getCart_def carts_at_def)

subsection \<open>Quantities that are not positive\<close>

text \<open>
  Claim C8 as stated fails: \<^verbatim>\<open>addToCart\<close> does not look at the sign of the quantity.
  A call with quantity 0 on a customer without a cart leaves a cart with a line of
  quantity 0, and a call with quantity \<open>-3\<close> takes three from a line of five.
\<close>

theorem addToCart_nonpositive_qty_counterexample:
  "qty (mouse 0) \<le> 0
   \<and> addToCart SessionManager_init 1 (mouse 0) = \<lparr>carts = [1 \<mapsto> [mouse 0]]\<rparr>
   \<and> cart_of (SessionManager_init :: real SessionManager) 1 = []
   \<and> qty (mouse (- 3)) \<le> 0
   \<and> addToCart \<lparr>carts = [1 \<mapsto> [mouse 5]]\<rparr> 1 (mouse (- 3)) = \<lparr>carts = [1 \<mapsto> [mouse 2]]\<rparr>"
  by (simp add: SessionManager_init_def addToCart_def carts_at_def cart_of_def mouse_def
      int_add_def int_wrap_def)

text \<open>
  Claim C8, as amended. The handler of \<^verbatim>\<open>POST /cart/add\<close> answers a request whose
  quantity is not positive with \<open>InvalidParams\<close> (status 400), does not call
  \<^verbatim>\<open>addToCart\<close>, and leaves the store and every cart as they were.
\<close>

theorem cart_add_rejects_nonpositive_qty:
  "q \<le> 0 \<Longrightarrow>
     cart_add (store, sessions) (Some (customerId, prodId, q))
       = (InvalidParams, store, sessions)"
  by (simp add: cart_add_def)

theorem cart_add_rejects_nonpositive_qty_witness:
  "(0 :: int) \<le> 0
   \<and> cart_add (main_store, \<lparr>carts = [1 \<mapsto> [mouse 5]]\<rparr>) (Some (1, 2, 0))
       = (InvalidParams, main_store, \<lparr>carts = [1 \<mapsto> [mouse 5]]\<rparr>)
   \<and> cart_add (main_store, \<lparr>carts = [1 \<mapsto> [mouse 5]]\<rparr>) (Some (1, 2, 1))
       = (CartOk, main_store, \<lparr>carts = [1 \<mapsto> [mouse 6]]\<rparr>)"
  using cart_add_rejects_nonpositive_qty [of 0 main_store "\<lparr>carts = [1 \<mapsto> [mouse 5]]\<rparr>" 1 2]
  by (simp add: cart_add_def main_defs addToCart_def carts_at_def int_add_def int_wrap_def)

subsection \<open>The carts of the handlers\<close>

text \<open>
  \<^verbatim>\<open>addToCart\<close> keeps the product ids of a cart, in their order, and adds the id of the
  item at the end when the cart does not have it. So no cart that the handlers build has
  two lines for the same product.
\<close>

lemma productIds_merge_item:
  "map productId (merge_item cart item) =
     (if productId item \<in> set (map productId cart) then map productId cart
      else map productId cart @ [productId item])"
  by (induction cart) auto

lemma carts_distinct_addToCart: "carts_distinct s \<Longrightarrow> carts_distinct (addToCart s c item)"
  by (simp add: carts_distinct_def addToCart_cart_of cart_of_update productIds_merge_item)

lemma carts_distinct_getCart: "carts_distinct s \<Longrightarrow> carts_distinct (snd (getCart s c))"
  by (simp add: carts_distinct_def cart_of_getCart)

lemma carts_distinct_clearCart: "carts_distinct s \<Longrightarrow> carts_distinct (clearCart s c)"
  by (simp add: carts_distinct_def cart_of_clearCart)

lemma carts_distinct_cart_add:
  "carts_distinct (snd st) \<Longrightarrow> carts_distinct (snd (snd (cart_add st body)))"
  by (cases st)
    (auto simp: cart_add_def carts_distinct_addToCart split: option.splits)

lemma carts_distinct_checkout:
  "carts_distinct (snd st) \<Longrightarrow> carts_distinct (snd (snd (checkout st body)))"
  using carts_distinct_getCart [of "snd st"]
    carts_distinct_clearCart [of "snd (getCart (snd st) _)"]
  by (cases st)
    (auto simp: checkout_def case_prod_beta Let_def split: option.splits sum.splits)

lemma carts_distinct_serve:
  "carts_distinct (snd st) \<Longrightarrow> carts_distinct (snd (snd (serve st rs)))"
proof (induction st rs rule: serve.induct)
  case (1 st)
  then show ?case by simp
next
  case (2 st body rs)
  have "(fst (cart_add st body), snd (cart_add st body)) = cart_add st body"
    by simp
  from "2.IH" [OF this carts_distinct_cart_add [OF "2.prems"]] show ?case
    by (simp add: case_prod_beta)
next
  case (3 st body rs)
  have "(fst (checkout st body), snd (checkout st body)) = checkout st body"
    by simp
  from "3.IH" [OF this carts_distinct_checkout [OF "3.prems"]] show ?case
    by (simp add: case_prod_beta)
qed

text \<open>
  A quantity in such a cart can be negative all the same: three requests that
  \<^verbatim>\<open>POST /cart/add\<close> accepts leave customer 1 with a line of -2147483648 mice and a
  line of one monitor, and the checkout places the order and takes the monitor only.
\<close>

lemma served_cart_wraps_and_is_skipped:
  "serve (main_store, SessionManager_init)
     [PostCartAdd (Some (1, 2, 2147483647)), PostCartAdd (Some (1, 2, 1)),
      PostCartAdd (Some (1, 3, 1)), PostCheckout (Some 1)]
   = ([CartOk, CartOk, CartOk,
       OrderPlaced \<lparr>order_id = 1, items = [mouse (- 2147483648), monitor 1]\<rparr>],
      main_store\<lparr>products := decrease_first (products main_store) 3 1, nextOrderId := 2\<rparr>,
      \<lparr>carts = Map.empty\<rparr>)"
  by (simp add: SessionManager_init_def cart_add_def checkout_def addToCart_def carts_at_def
      getCart_def clearCart_def generateOrderId_def placeOrder_def decreaseStock_def
      int_add_def int_wrap_def main_defs)

end
